theory Spec2Isabelle
  imports Complex_Main "HOL-Library.Word"
begin

section \<open>The client: \<open>frontend/src/app/page.js\<close>\<close>

subsection \<open>JavaScript values\<close>

text \<open>
  A JavaScript string is a sequence of 16-bit code units. String literals of the source
  are written with \<open>lit\<close>, which maps each ASCII character to its code unit.
\<close>

type_synonym jsstring = "16 word list"

definition lit :: "string \<Rightarrow> jsstring" where
  "lit s = map (\<lambda>c. word_of_nat (of_char c)) s"

text \<open>
  \<open>String.prototype.trim\<close> removes WhiteSpace and LineTerminator code points from both
  ends: TAB, LF, VT, FF, CR, SPACE, NBSP, the Unicode space separators, LS, PS and the
  byte order mark.
\<close>

definition isWhiteSpace :: "16 word \<Rightarrow> bool" where
  "isWhiteSpace c = (c \<in> set [0x9, 0xA, 0xB, 0xC, 0xD, 0x20, 0xA0, 0x1680,
     0x2000, 0x2001, 0x2002, 0x2003, 0x2004, 0x2005, 0x2006, 0x2007, 0x2008, 0x2009,
     0x200A, 0x2028, 0x2029, 0x202F, 0x205F, 0x3000, 0xFEFF])"

definition trim :: "jsstring \<Rightarrow> jsstring" where
  "trim s = rev (dropWhile isWhiteSpace (rev (dropWhile isWhiteSpace s)))"

text \<open>
  The values that \<open>response.json()\<close> can produce, and \<open>undefined\<close> for a property that is
  absent. Numbers are the integers (the only numbers of the interface are counts).
\<close>

datatype jsval =
    Undefined
  | Null
  | Bool bool
  | Num int
  | Str jsstring
  | Arr "jsval list"
  | Obj "(jsstring \<times> jsval) list"

text \<open>ToBoolean: what \<open>if (v)\<close>, \<open>!v\<close>, \<open>v && w\<close> and \<open>v || w\<close> test.\<close>

fun truthy :: "jsval \<Rightarrow> bool" where
  "truthy Undefined = False"
| "truthy Null = False"
| "truthy (Bool b) = b"
| "truthy (Num n) = (n \<noteq> 0)"
| "truthy (Str s) = (s \<noteq> [])"
| "truthy (Arr xs) = True"
| "truthy (Obj kvs) = True"

text \<open>\<open>a || b\<close>\<close>

definition js_or :: "jsval \<Rightarrow> jsval \<Rightarrow> jsval" where
  "js_or a b = (if truthy a then a else b)"

text \<open>
  The message of the TypeError thrown by a property read on \<open>null\<close> or \<open>undefined\<close>
  (the wording of V8; \<open>0x27\<close> is the apostrophe).
\<close>

definition typeErrorMessage :: "jsval \<Rightarrow> jsstring \<Rightarrow> jsstring" where
  "typeErrorMessage v k =
     lit ''Cannot read properties of '' @ (if v = Null then lit ''null'' else lit ''undefined'')
       @ lit '' (reading '' @ [0x27] @ k @ [0x27] @ lit '')''"

text \<open>
  \<open>v.k\<close> for the property names the source reads (\<open>session_id\<close>, \<open>response\<close>,
  \<open>source_documents\<close>, \<open>detail\<close>, \<open>vectorstore_available\<close>, \<open>document_count\<close>): a TypeError
  (\<open>Inl\<close>, with its message) on \<open>null\<close> and \<open>undefined\<close>, the property's value on an object
  (the last one of a repeated key, as \<open>JSON.parse\<close> keeps it), \<open>undefined\<close> otherwise.
\<close>

definition getProp :: "jsval \<Rightarrow> jsstring \<Rightarrow> jsstring + jsval" where
  "getProp v k =
     (case v of
        Undefined \<Rightarrow> Inl (typeErrorMessage v k)
      | Null \<Rightarrow> Inl (typeErrorMessage v k)
      | Obj kvs \<Rightarrow> Inr (case map_of (rev kvs) k of None \<Rightarrow> Undefined | Some x \<Rightarrow> x)
      | _ \<Rightarrow> Inr Undefined)"

subsection \<open>Component state, requests and their outcomes\<close>

text \<open>
  The state of \<open>DocumentChatApp\<close> that its handlers read and write (the \<open>useState\<close> cells
  \<open>sidebarOpen\<close>, \<open>historyDrawerOpen\<close>, \<open>dragOver\<close>, \<open>copiedIndex\<close> and \<open>typingDots\<close> only
  drive the layout and are left out).
\<close>

record chat_status =
  vectorstore_available :: jsval
  document_count :: jsval

record app =
  messages :: "jsval list"
  inputMessage :: jsstring
  loading :: bool
  uploadedFiles :: "jsstring list"
  chatStatus :: chat_status
  notification :: jsval
  currentPage :: nat
  chatSessions :: "jsval list"
  currentSessionId :: jsval

definition initial_app :: app where
  "initial_app =
     \<lparr> messages = [], inputMessage = [], loading = False, uploadedFiles = [],
       chatStatus = \<lparr> vectorstore_available = Bool False, document_count = Num 0 \<rparr>,
       notification = Str [], currentPage = 0, chatSessions = [],
       currentSessionId = Null \<rparr>"

text \<open>One constructor for each \<open>fetch\<close> of the source, with the data it sends.\<close>

datatype request =
    GetDocumentsList
  | PostDocumentsUpload jsstring
  | DeleteDocument jsstring
  | PostDocumentsReprocess
  | GetChatStatus
  | GetChatSessions
  | PostChatNewSession jsstring
  | PostChatQuery jsstring jsval
  | PostChatRefreshVectorstore

fun request_method :: "request \<Rightarrow> string" where
  "request_method GetDocumentsList = ''GET''"
| "request_method (PostDocumentsUpload f) = ''POST''"
| "request_method (DeleteDocument f) = ''DELETE''"
| "request_method PostDocumentsReprocess = ''POST''"
| "request_method GetChatStatus = ''GET''"
| "request_method GetChatSessions = ''GET''"
| "request_method (PostChatNewSession t) = ''POST''"
| "request_method (PostChatQuery m sid) = ''POST''"
| "request_method PostChatRefreshVectorstore = ''POST''"

fun request_path :: "request \<Rightarrow> jsstring" where
  "request_path GetDocumentsList = lit ''/documents/list''"
| "request_path (PostDocumentsUpload f) = lit ''/documents/upload''"
| "request_path (DeleteDocument f) = lit ''/documents/delete/'' @ f"
| "request_path PostDocumentsReprocess = lit ''/documents/reprocess''"
| "request_path GetChatStatus = lit ''/chat/status''"
| "request_path GetChatSessions = lit ''/chat/sessions''"
| "request_path (PostChatNewSession t) = lit ''/chat/new-session''"
| "request_path (PostChatQuery m sid) = lit ''/chat/query''"
| "request_path PostChatRefreshVectorstore = lit ''/chat/refresh-vectorstore''"

text \<open>
  What a handler does to the outside, in the order it does it: the requests it issues,
  the notifications it shows, and its console output.
\<close>

datatype effect =
    Fetch request
  | Notify jsval
  | ConsoleError
  | ConsoleWarn

text \<open>
  The outcome of one awaited \<open>fetch\<close>: the promise rejects (with the error's message), or
  resolves to a response with its \<open>ok\<close> flag and what \<open>response.json()\<close> gives: a
  SyntaxError (\<open>Inl\<close>, with its message) or the parsed body.
\<close>

datatype outcome =
    Rejected jsstring
  | Response bool "jsstring + jsval"

text \<open>
  \<open>showNotification\<close> stores the message; the timer that clears it after three seconds
  is not part of this model.
\<close>

definition showNotification :: "jsval \<Rightarrow> app \<Rightarrow> app" where
  "showNotification message s = s\<lparr>notification := message\<rparr>"

text \<open>
  Each async handler is a function of the state in which it is invoked and of the
  outcomes of the requests it awaits; it returns the state it leaves and its effects.
  A handler that is called without \<open>await\<close> (\<open>loadChatSessions()\<close>, \<open>loadUploadedFiles()\<close>,
  \<open>checkChatStatus()\<close>) contributes the request it issues at once; the state change it
  makes when its own response arrives is a step of its own.
\<close>

subsection \<open>\<open>createNewChat\<close>\<close>

definition createNewChat :: "app \<Rightarrow> outcome \<Rightarrow> app \<times> effect list" where
  "createNewChat s r =
     (if truthy (currentSessionId s) \<and> messages s = [] then
        (showNotification (Str (lit ''You already have an empty chat open'')) s,
         [Notify (Str (lit ''You already have an empty chat open''))])
      else
        let post = Fetch (PostChatNewSession (lit ''New Chat''));
            err = Str (lit ''Error creating new chat'');
            created = Str (lit ''New chat created'')
        in case r of
             Rejected m \<Rightarrow> (showNotification err s, [post, Notify err])
           | Response ok body \<Rightarrow>
               (case body of
                  Inl m \<Rightarrow> (showNotification err s, [post, Notify err])
                | Inr data \<Rightarrow>
                    if ok then
                      (case getProp data (lit ''session_id'') of
                         Inl m \<Rightarrow>
                           (showNotification err (s\<lparr>messages := []\<rparr>), [post, Notify err])
                       | Inr sid \<Rightarrow>
                           (showNotification created
                              (s\<lparr>messages := [], currentSessionId := sid\<rparr>),
                            [post, Fetch GetChatSessions, Notify created]))
                    else (s, [post])))"

subsection \<open>\<open>sendMessage\<close> and the controls that invoke it\<close>

definition userMessage :: "jsstring \<Rightarrow> jsval" where
  "userMessage text = Obj [(lit ''role'', Str (lit ''user'')), (lit ''content'', Str text)]"

definition assistantMessage :: "jsval \<Rightarrow> jsval \<Rightarrow> jsval" where
  "assistantMessage response source_documents =
     Obj [(lit ''role'', Str (lit ''assistant'')), (lit ''content'', response),
          (lit ''sources'', source_documents)]"

text \<open>
  The part of \<open>sendMessage\<close> that runs before the \<open>await\<close>: the user message is appended
  (a functional update of the list), the input is cleared and \<open>loading\<close> is set.
\<close>

definition sendMessage_begin :: "app \<Rightarrow> app" where
  "sendMessage_begin s =
     s\<lparr>messages := messages s @ [userMessage (inputMessage s)],
       inputMessage := [], loading := True\<rparr>"

text \<open>
  The part after the \<open>await\<close>, on the state \<open>s1\<close> reached so far; \<open>finally\<close> resets
  \<open>loading\<close> on every path.
\<close>

definition sendMessage_end :: "app \<Rightarrow> outcome \<Rightarrow> app \<times> effect list" where
  "sendMessage_end s1 r =
     (let chat_error = (\<lambda>m. Str (lit ''Chat error: '' @ m));
          caught = (\<lambda>m. (showNotification (chat_error m) s1\<lparr>loading := False\<rparr>,
                         [Notify (chat_error m)]))
      in case r of
           Rejected m \<Rightarrow> caught m
         | Response ok body \<Rightarrow>
             (case body of
                Inl m \<Rightarrow> caught m
              | Inr data \<Rightarrow>
                  if ok then
                    (case (getProp data (lit ''response''),
                           getProp data (lit ''source_documents''),
                           getProp data (lit ''session_id'')) of
                       (Inr response, Inr source_documents, Inr sid) \<Rightarrow>
                         (s1\<lparr>messages :=
                                messages s1 @ [assistantMessage response source_documents],
                             currentSessionId := sid, loading := False\<rparr>,
                          [Fetch GetChatSessions])
                     | (Inl m, _, _) \<Rightarrow> caught m
                     | (_, Inl m, _) \<Rightarrow> caught m
                     | (_, _, Inl m) \<Rightarrow> caught m)
                  else
                    (case getProp data (lit ''detail'') of
                       Inl m \<Rightarrow> caught m
                     | Inr detail \<Rightarrow>
                         (let n = js_or detail (Str (lit ''Failed to get response''))
                          in (showNotification n s1\<lparr>loading := False\<rparr>, [Notify n])))))"

definition sendMessage :: "app \<Rightarrow> outcome \<Rightarrow> app \<times> effect list" where
  "sendMessage s r =
     (if trim (inputMessage s) = [] \<or> loading s then (s, [])
      else
        let (s2, effs) = sendMessage_end (sendMessage_begin s) r
        in (s2, Fetch (PostChatQuery (inputMessage s) (currentSessionId s)) # effs))"

text \<open>
  \<open>handleKeyPress\<close> is the textarea's \<open>onKeyPress\<close>; the send button's \<open>onClick\<close> is
  \<open>sendMessage\<close>. Both elements carry a \<open>disabled\<close> attribute computed from the state, and
  a disabled control delivers no click and no key event.
\<close>

definition handleKeyPress :: "app \<Rightarrow> jsstring \<Rightarrow> bool \<Rightarrow> outcome \<Rightarrow> app \<times> effect list" where
  "handleKeyPress s key shiftKey r =
     (if key = lit ''Enter'' \<and> \<not> shiftKey then sendMessage s r else (s, []))"

definition textarea_disabled :: "app \<Rightarrow> bool" where
  "textarea_disabled s = (\<not> truthy (vectorstore_available (chatStatus s)) \<or> loading s)"

definition sendButton_disabled :: "app \<Rightarrow> bool" where
  "sendButton_disabled s =
     (trim (inputMessage s) = [] \<or> \<not> truthy (vectorstore_available (chatStatus s))
      \<or> loading s)"

datatype ui_event =
    SendClick
  | TextareaKeyPress jsstring bool

definition dispatch :: "app \<Rightarrow> ui_event \<Rightarrow> outcome \<Rightarrow> app \<times> effect list" where
  "dispatch s ev r =
     (case ev of
        SendClick \<Rightarrow> if sendButton_disabled s then (s, []) else sendMessage s r
      | TextareaKeyPress key shiftKey \<Rightarrow>
          if textarea_disabled s then (s, []) else handleKeyPress s key shiftKey r)"

subsection \<open>\<open>checkChatStatus\<close>\<close>

definition checkChatStatus :: "app \<Rightarrow> outcome \<Rightarrow> app \<times> effect list" where
  "checkChatStatus s r =
     (let defaults = \<lparr> vectorstore_available = Bool False, document_count = Num 0 \<rparr>;
          unable = Str (lit ''Unable to check system status'');
          caught = (showNotification unable (s\<lparr>chatStatus := defaults\<rparr>),
                    [Fetch GetChatStatus, ConsoleError, Notify unable])
      in case r of
           Rejected m \<Rightarrow> caught
         | Response ok body \<Rightarrow>
             if \<not> ok then caught
             else
               (case body of
                  Inl m \<Rightarrow> caught
                | Inr data \<Rightarrow>
                    (case (getProp data (lit ''vectorstore_available''),
                           getProp data (lit ''document_count'')) of
                       (Inr available, Inr count) \<Rightarrow>
                         (s\<lparr>chatStatus :=
                              \<lparr> vectorstore_available = js_or available (Bool False),
                                document_count = js_or count (Num 0) \<rparr>\<rparr>,
                          [Fetch GetChatStatus])
                     | (Inl m, _) \<Rightarrow> caught
                     | (_, Inl m) \<Rightarrow> caught)))"

subsection \<open>\<open>uploadFile\<close>, \<open>deleteFile\<close>, \<open>reprocessDocuments\<close>\<close>

text \<open>
  \<open>uploadFile\<close> awaits the upload and then, on the success path, the refresh; \<open>name\<close> is
  \<open>file.name\<close>. \<open>loading\<close> is set before the first request and reset by \<open>finally\<close>.
\<close>

definition uploadFile :: "app \<Rightarrow> jsstring \<Rightarrow> outcome \<Rightarrow> outcome \<Rightarrow> app \<times> effect list" where
  "uploadFile s name r refresh =
     (let post = Fetch (PostDocumentsUpload name);
          upload_error = (\<lambda>m. Str (lit ''Upload error: '' @ m));
          caught = (\<lambda>m. (showNotification (upload_error m) (s\<lparr>loading := False\<rparr>),
                         [post, Notify (upload_error m)]))
      in case r of
           Rejected m \<Rightarrow> caught m
         | Response ok body \<Rightarrow>
             (case body of
                Inl m \<Rightarrow> caught m
              | Inr data \<Rightarrow>
                  if ok then
                    (let uploaded = Str (lit ''File '' @ name @ lit '' uploaded successfully!'')
                     in (showNotification uploaded (s\<lparr>loading := False\<rparr>),
                         [post, Notify uploaded, Fetch GetDocumentsList, Fetch GetChatStatus,
                          Fetch PostChatRefreshVectorstore]
                         @ (case refresh of
                              Rejected m \<Rightarrow> [ConsoleWarn]
                            | Response ok2 body2 \<Rightarrow> [])))
                  else
                    (case getProp data (lit ''detail'') of
                       Inl m \<Rightarrow> caught m
                     | Inr detail \<Rightarrow>
                         (let n = js_or detail (Str (lit ''Upload failed''))
                          in (showNotification n (s\<lparr>loading := False\<rparr>),
                              [post, Notify n])))))"

definition deleteFile :: "app \<Rightarrow> jsstring \<Rightarrow> outcome \<Rightarrow> app \<times> effect list" where
  "deleteFile s filename r =
     (let del = Fetch (DeleteDocument filename)
      in case r of
           Rejected m \<Rightarrow>
             (showNotification (Str (lit ''Delete error: '' @ m)) s,
              [del, Notify (Str (lit ''Delete error: '' @ m))])
         | Response ok body \<Rightarrow>
             if ok then
               (showNotification (Str (lit ''File '' @ filename @ lit '' deleted'')) s,
                [del, Notify (Str (lit ''File '' @ filename @ lit '' deleted'')),
                 Fetch GetDocumentsList, Fetch GetChatStatus])
             else
               (showNotification (Str (lit ''Failed to delete file'')) s,
                [del, Notify (Str (lit ''Failed to delete file''))]))"

definition reprocessDocuments :: "app \<Rightarrow> outcome \<Rightarrow> app \<times> effect list" where
  "reprocessDocuments s r =
     (case r of
        Rejected m \<Rightarrow>
          (showNotification (Str (lit ''Reprocess error: '' @ m)) (s\<lparr>loading := False\<rparr>),
           [Fetch PostDocumentsReprocess, Notify (Str (lit ''Reprocess error: '' @ m))])
      | Response ok body \<Rightarrow>
          if ok then
            (showNotification (Str (lit ''Documents reprocessed successfully!''))
               (s\<lparr>loading := False\<rparr>),
             [Fetch PostDocumentsReprocess,
              Notify (Str (lit ''Documents reprocessed successfully!'')), Fetch GetChatStatus])
          else
            (showNotification (Str (lit ''Failed to reprocess documents''))
               (s\<lparr>loading := False\<rparr>),
             [Fetch PostDocumentsReprocess,
              Notify (Str (lit ''Failed to reprocess documents''))]))"

subsection \<open>Pagination of the file list\<close>

definition filesPerPage :: nat where
  "filesPerPage = 2"

text \<open>\<open>Math.ceil(uploadedFiles.length / filesPerPage)\<close>\<close>

definition totalPages :: "app \<Rightarrow> nat" where
  "totalPages s = nat \<lceil>real (length (uploadedFiles s)) / real filesPerPage\<rceil>"

text \<open>
  \<open>xs.slice(b, e)\<close> for indices that are natural numbers: the elements from \<open>b\<close> up to, not
  including, \<open>e\<close>; nothing when \<open>b\<close> is beyond the end.
\<close>

definition slice :: "'a list \<Rightarrow> nat \<Rightarrow> nat \<Rightarrow> 'a list" where
  "slice xs b e = take (e - b) (drop b xs)"

definition currentFiles :: "app \<Rightarrow> jsstring list" where
  "currentFiles s =
     slice (uploadedFiles s) (currentPage s * filesPerPage) ((currentPage s + 1) * filesPerPage)"

text \<open>The effect "Reset pagination when files change".\<close>

definition resetPagination :: "app \<Rightarrow> app" where
  "resetPagination s =
     (if currentPage s \<ge> totalPages s \<and> totalPages s > 0
      then s\<lparr>currentPage := totalPages s - 1\<rparr> else s)"

section \<open>The backend behind the client's API\<close>

text \<open>
  Modelled from the spec: the server (\<open>main.py\<close> in the README's setup notes) is not among
  the sources; only its client is. Its components follow the specification's sections 3
  and 4. The external collaborators (text extraction, embedding, generation) are
  functions of an environment, together with the configuration; retries, time-outs and
  concurrent requests are outside this model, and vector components are rationals.
\<close>

subsection \<open>Data model\<close>

text \<open>Modelled from the spec: the Document of section 3; its id is its filename.\<close>

datatype doc_status = Pending | Indexed | Failed

record document =
  filename :: string
  content :: string
  upload_time :: nat
  byte_size :: nat
  status :: doc_status

text \<open>
  Modelled from the spec: the Chunk of section 3. Its id is the owning document's id
  with the sequence index, so that the chunker stays a pure function of the text.
\<close>

record chunk =
  chunk_id :: "string \<times> nat"
  document_id :: string
  sequence_index :: nat
  chunk_text :: string
  char_offset_range :: "nat \<times> nat"

text \<open>
  Modelled from the spec: the Embedding of section 3, with the model tag that 4.6 asks
  to be stored per Embedding.
\<close>

record embedding =
  emb_chunk_id :: "string \<times> nat"
  emb_vector :: "rat list"
  emb_model :: string

text \<open>Modelled from the spec: Message and Session of section 3.\<close>

datatype role = User | Assistant

record message =
  msg_role :: role
  msg_content :: string
  msg_sources :: "(string \<times> rat) list"

record session =
  session_id :: nat
  title :: string
  created_at :: nat
  last_updated :: nat
  session_messages :: "message list"

text \<open>
  Modelled from the spec: the stores. The Document Store owns documents and chunks, the
  Embedding Index the vectors (in insertion order), the Session Store the sessions.
\<close>

record backend =
  documents :: "document list"
  chunks :: "chunk list"
  emb_index :: "embedding list"
  sessions :: "session list"
  next_session_id :: nat

definition empty_backend :: backend where
  "empty_backend =
     \<lparr> documents = [], chunks = [], emb_index = [], sessions = [], next_session_id = 0 \<rparr>"

text \<open>
  Modelled from the spec: the collaborators of section 6 and the configuration surface
  (embedding-model identifier, chunk size and overlap, retrieval k, history window).
\<close>

record env =
  decode :: "string \<Rightarrow> string option"
  embed :: "string \<Rightarrow> rat list"
  generate :: "string \<Rightarrow> string"
  embedding_model :: string
  chunk_size :: nat
  chunk_overlap :: nat
  retrieval_k :: nat
  history_window :: nat

text \<open>Modelled from the spec: the session cap of sections 3 and 4.5.\<close>

definition session_cap :: nat where
  "session_cap = 50"

text \<open>Modelled from the spec: the error taxonomy of section 7.\<close>

datatype backend_error =
    NotFound
  | DuplicateName
  | UnsupportedFormat
  | EmbeddingServiceError
  | NoDocumentsIndexed
  | EmbeddingModelMismatch
  | DuplicateEmptySession

subsection \<open>Chunker (4.2)\<close>

text \<open>
  Modelled from the spec: windows of \<open>n\<close> characters with \<open>m\<close> characters of overlap, from
  position \<open>pos\<close> on; an empty text gives no window, and neither does a size that does
  not exceed the overlap.
\<close>

function windows :: "nat \<Rightarrow> nat \<Rightarrow> string \<Rightarrow> nat \<Rightarrow> (nat \<times> string) list" where
  "windows n m txt pos =
     (if n \<le> m \<or> length txt \<le> pos then []
      else (pos, take n (drop pos txt)) #
           (if length txt \<le> pos + n then []
            else windows n m txt (pos + (n - m))))"
  by pat_completeness auto
termination
  by (relation "measure (\<lambda>(n, m, txt, pos). length txt - pos)") auto

declare windows.simps [simp del]

text \<open>Modelled from the spec: \<open>split\<close>, for the document that owns the chunks.\<close>

definition split :: "env \<Rightarrow> string \<Rightarrow> string \<Rightarrow> chunk list" where
  "split e doc txt =
     map (\<lambda>(i, (pos, t)).
            \<lparr> chunk_id = (doc, i), document_id = doc, sequence_index = i, chunk_text = t,
              char_offset_range = (pos, pos + length t) \<rparr>)
         (enumerate 0 (windows (chunk_size e) (chunk_overlap e) txt 0))"

subsection \<open>Embedding Index (4.3)\<close>

text \<open>Modelled from the spec: \<open>upsert\<close> inserts or replaces the vector of a chunk id.\<close>

definition upsert :: "embedding \<Rightarrow> embedding list \<Rightarrow> embedding list" where
  "upsert x idx =
     (if emb_chunk_id x \<in> emb_chunk_id ` set idx
      then map (\<lambda>y. if emb_chunk_id y = emb_chunk_id x then x else y) idx
      else idx @ [x])"

text \<open>Modelled from the spec: \<open>remove(chunk_ids)\<close>.\<close>

definition index_remove :: "(string \<times> nat) list \<Rightarrow> embedding list \<Rightarrow> embedding list" where
  "index_remove ids idx = filter (\<lambda>y. emb_chunk_id y \<notin> set ids) idx"

text \<open>Modelled from the spec: the similarity of two vectors, their inner product.\<close>

definition similarity :: "rat list \<Rightarrow> rat list \<Rightarrow> rat" where
  "similarity u v = sum_list (map2 (*) u v)"

text \<open>
  Modelled from the spec: \<open>search(query_vector, k)\<close>, by descending similarity; the sort
  is stable, so ties keep insertion order.
\<close>

definition search :: "embedding list \<Rightarrow> rat list \<Rightarrow> nat \<Rightarrow> ((string \<times> nat) \<times> rat) list" where
  "search idx q k =
     take k (map (\<lambda>y. (emb_chunk_id y, similarity q (emb_vector y)))
               (sort_key (\<lambda>y. - similarity q (emb_vector y)) idx))"

definition embedding_of :: "env \<Rightarrow> chunk \<Rightarrow> embedding" where
  "embedding_of e c =
     \<lparr> emb_chunk_id = chunk_id c, emb_vector = embed e (chunk_text c),
       emb_model = embedding_model e \<rparr>"

text \<open>Modelled from the spec: \<open>rebuild(all_chunks)\<close>, a full replacement of the index.\<close>

definition rebuild :: "env \<Rightarrow> chunk list \<Rightarrow> embedding list" where
  "rebuild e cs = map (embedding_of e) cs"

subsection \<open>Document Store (4.1)\<close>

text \<open>Modelled from the spec: \<open>add\<close>, rejecting a filename that exists.\<close>

definition doc_add :: "string \<Rightarrow> string \<Rightarrow> nat \<Rightarrow> backend \<Rightarrow> backend_error + backend" where
  "doc_add f bytes now b =
     (if f \<in> filename ` set (documents b) then Inl DuplicateName
      else Inr (b\<lparr>documents := documents b @
                  [\<lparr> filename = f, content = bytes, upload_time = now,
                     byte_size = length bytes, status = Pending \<rparr>]\<rparr>))"

definition doc_list :: "backend \<Rightarrow> string list" where
  "doc_list b = map filename (documents b)"

definition doc_get :: "string \<Rightarrow> backend \<Rightarrow> backend_error + string" where
  "doc_get f b =
     (case find (\<lambda>d. filename d = f) (documents b) of
        None \<Rightarrow> Inl NotFound
      | Some d \<Rightarrow> Inr (content d))"

text \<open>
  Modelled from the spec: \<open>delete\<close>. The document's chunks leave the Document Store and
  their ids are removed from the Embedding Index in the same step.
\<close>

definition doc_delete :: "string \<Rightarrow> backend \<Rightarrow> backend_error + backend" where
  "doc_delete f b =
     (if f \<notin> filename ` set (documents b) then Inl NotFound
      else Inr (b\<lparr>documents := filter (\<lambda>d. filename d \<noteq> f) (documents b),
                  chunks := filter (\<lambda>c. document_id c \<noteq> f) (chunks b),
                  emb_index :=
                    index_remove (map chunk_id (filter (\<lambda>c. document_id c = f) (chunks b)))
                      (emb_index b)\<rparr>))"

subsection \<open>Ingestion Pipeline (4.4)\<close>

definition set_status :: "string \<Rightarrow> doc_status \<Rightarrow> document list \<Rightarrow> document list" where
  "set_status f st ds = map (\<lambda>d. if filename d = f then d\<lparr>status := st\<rparr> else d) ds"

text \<open>
  Modelled from the spec: the pipeline for one stored document: decode, chunk, embed and
  upsert each chunk, mark it Indexed; Failed when the decoder rejects the format.
  Chunks the document had before are replaced by the new ones.
\<close>

definition ingest :: "env \<Rightarrow> string \<Rightarrow> backend \<Rightarrow> backend" where
  "ingest e f b =
     (case find (\<lambda>d. filename d = f) (documents b) of
        None \<Rightarrow> b
      | Some d \<Rightarrow>
          (case decode e (content d) of
             None \<Rightarrow> b\<lparr>documents := set_status f Failed (documents b)\<rparr>
           | Some txt \<Rightarrow>
               b\<lparr>documents := set_status f Indexed (documents b),
                 chunks := filter (\<lambda>c. document_id c \<noteq> f) (chunks b) @ split e f txt,
                 emb_index :=
                   foldl (\<lambda>idx c. upsert (embedding_of e c) idx)
                     (index_remove
                        (map chunk_id (filter (\<lambda>c. document_id c = f) (chunks b)))
                        (emb_index b))
                     (split e f txt)\<rparr>))"

definition pending :: "backend \<Rightarrow> string list" where
  "pending b = map filename (filter (\<lambda>d. status d = Pending) (documents b))"

text \<open>
  Modelled from the spec: POST /chat/refresh-vectorstore, the incremental refresh after
  upload: the documents still Pending go through the pipeline.
\<close>

definition refresh :: "env \<Rightarrow> backend \<Rightarrow> backend" where
  "refresh e b = foldl (\<lambda>b' f. ingest e f b') b (pending b)"

text \<open>
  Modelled from the spec: \<open>reprocess()\<close>, the pipeline over every stored document, with
  the index rebuilt from all chunks; a document that fails does not stop the others.
\<close>

definition process :: "env \<Rightarrow> document \<Rightarrow> document \<times> chunk list" where
  "process e d =
     (case decode e (content d) of
        None \<Rightarrow> (d\<lparr>status := Failed\<rparr>, [])
      | Some txt \<Rightarrow> (d\<lparr>status := Indexed\<rparr>, split e (filename d) txt))"

definition reprocess :: "env \<Rightarrow> backend \<Rightarrow> backend" where
  "reprocess e b =
     b\<lparr>documents := map (\<lambda>d. fst (process e d)) (documents b),
       chunks := concat (map (\<lambda>d. snd (process e d)) (documents b)),
       emb_index := rebuild e (concat (map (\<lambda>d. snd (process e d)) (documents b)))\<rparr>"

definition reprocess_failures :: "env \<Rightarrow> backend \<Rightarrow> nat" where
  "reprocess_failures e b =
     length (filter (\<lambda>d. status d = Failed) (documents (reprocess e b)))"

subsection \<open>VectorStoreStatus and GET /chat/status\<close>

text \<open>Modelled from the spec: the derived status of section 3.\<close>

definition status_available :: "backend \<Rightarrow> bool" where
  "status_available b = (emb_index b \<noteq> [])"

definition status_document_count :: "backend \<Rightarrow> nat" where
  "status_document_count b = length (filter (\<lambda>d. status d = Indexed) (documents b))"

text \<open>Modelled from the spec: the response to GET /chat/status, as the client receives it.\<close>

definition get_chat_status :: "backend \<Rightarrow> outcome" where
  "get_chat_status b =
     Response True (Inr (Obj [(lit ''vectorstore_available'', Bool (status_available b)),
                              (lit ''document_count'', Num (int (status_document_count b)))]))"

subsection \<open>Session Store (4.5)\<close>

text \<open>Modelled from the spec: the least-recently-updated session and its eviction.\<close>

definition lru :: "session list \<Rightarrow> session" where
  "lru ss = arg_min_list last_updated ss"

definition evict :: "session list \<Rightarrow> session list" where
  "evict ss = remove1 (lru ss) ss"

text \<open>
  Modelled from the spec: \<open>create(title)\<close>; when the count would exceed the cap, the
  least-recently-updated session is evicted first.
\<close>

definition session_create :: "string \<Rightarrow> nat \<Rightarrow> backend \<Rightarrow> nat \<times> backend" where
  "session_create t now b =
     (next_session_id b,
      b\<lparr>sessions :=
          (if length (sessions b) + 1 > session_cap then evict (sessions b) else sessions b)
          @ [\<lparr> session_id = next_session_id b, title = t, created_at = now,
                last_updated = now, session_messages = [] \<rparr>],
        next_session_id := next_session_id b + 1\<rparr>)"

definition session_list :: "backend \<Rightarrow> session list" where
  "session_list b = rev (sort_key last_updated (sessions b))"

definition session_get :: "nat \<Rightarrow> backend \<Rightarrow> backend_error + session" where
  "session_get i b =
     (case find (\<lambda>s. session_id s = i) (sessions b) of
        None \<Rightarrow> Inl NotFound
      | Some s \<Rightarrow> Inr s)"

definition append_message :: "nat \<Rightarrow> message \<Rightarrow> nat \<Rightarrow> backend \<Rightarrow> backend_error + backend" where
  "append_message i m now b =
     (if i \<notin> session_id ` set (sessions b) then Inl NotFound
      else Inr (b\<lparr>sessions :=
                   map (\<lambda>s. if session_id s = i
                             then s\<lparr>session_messages := session_messages s @ [m],
                                    last_updated := now\<rparr>
                             else s) (sessions b)\<rparr>))"

definition session_delete :: "nat \<Rightarrow> backend \<Rightarrow> backend" where
  "session_delete i b = b\<lparr>sessions := filter (\<lambda>s. session_id s \<noteq> i) (sessions b)\<rparr>"

subsection \<open>Query Orchestrator (4.6)\<close>

datatype ext_call = EmbedCall string | GenerateCall string

record answer_body =
  response_text :: string
  answer_sources :: "(string \<times> rat) list"
  answer_session :: nat

text \<open>Modelled from the spec: the grounded prompt of step 4.\<close>

definition assemble_prompt :: "string list \<Rightarrow> message list \<Rightarrow> string \<Rightarrow> string" where
  "assemble_prompt passages history q =
     concat passages @ concat (map msg_content history) @ q"

text \<open>Modelled from the spec: step 1, the session of the query, created when absent or unknown.\<close>

definition ensure_session :: "nat option \<Rightarrow> nat \<Rightarrow> backend \<Rightarrow> nat \<times> backend" where
  "ensure_session sid now b =
     (case sid of
        None \<Rightarrow> session_create ''New Chat'' now b
      | Some i \<Rightarrow>
          if i \<in> session_id ` set (sessions b) then (i, b)
          else session_create ''New Chat'' now b)"

text \<open>Modelled from the spec: step 5, the exchange appended to the session.\<close>

definition record_exchange ::
  "nat \<Rightarrow> message \<Rightarrow> message \<Rightarrow> nat \<Rightarrow> backend \<Rightarrow> backend_error + backend" where
  "record_exchange i um am now b =
     (case append_message i um now b of
        Inl err \<Rightarrow> Inl err
      | Inr b2 \<Rightarrow> append_message i am now b2)"

text \<open>Modelled from the spec: steps 3 and 4, the passages retrieved and the prompt.\<close>

definition retrieve :: "env \<Rightarrow> string \<Rightarrow> backend \<Rightarrow> ((string \<times> nat) \<times> rat) list" where
  "retrieve e q b = search (emb_index b) (embed e q) (retrieval_k e)"

definition grounded_prompt :: "env \<Rightarrow> string \<Rightarrow> nat \<Rightarrow> backend \<Rightarrow> string" where
  "grounded_prompt e q i b =
     assemble_prompt
       (concat (map (\<lambda>hit. map chunk_text (filter (\<lambda>c. chunk_id c = fst hit) (chunks b)))
                  (retrieve e q b)))
       (case find (\<lambda>s. session_id s = i) (sessions b) of
          None \<Rightarrow> []
        | Some s \<Rightarrow>
            drop (length (session_messages s) - history_window e) (session_messages s))
       q"

text \<open>
  Modelled from the spec: \<open>answer\<close>, steps 1 to 6, with the calls it makes to the
  embedding and generation services.
\<close>

definition answer ::
  "env \<Rightarrow> string \<Rightarrow> nat option \<Rightarrow> nat \<Rightarrow> backend
     \<Rightarrow> (backend_error + answer_body) \<times> backend \<times> ext_call list" where
  "answer e q sid now b =
     (let i = fst (ensure_session sid now b);
          b1 = snd (ensure_session sid now b)
      in if list_ex (\<lambda>x. emb_model x \<noteq> embedding_model e) (emb_index b1)
         then (Inl EmbeddingModelMismatch, b1, [EmbedCall q])
         else if emb_index b1 = [] then (Inl NoDocumentsIndexed, b1, [EmbedCall q])
         else
           let prompt = grounded_prompt e q i b1;
               resp = generate e prompt;
               srcs = map (\<lambda>hit. (fst (fst hit), snd hit)) (retrieve e q b1);
               calls = [EmbedCall q, GenerateCall prompt]
           in case record_exchange i
                     \<lparr> msg_role = User, msg_content = q, msg_sources = [] \<rparr>
                     \<lparr> msg_role = Assistant, msg_content = resp, msg_sources = srcs \<rparr>
                     now b1 of
                Inl err \<Rightarrow> (Inl err, b1, calls)
              | Inr b3 \<Rightarrow>
                  (Inr \<lparr> response_text = resp, answer_sources = srcs, answer_session = i \<rparr>,
                   b3, calls))"

subsection \<open>The states the backend can reach\<close>

text \<open>
  Modelled from the spec: the backend starts empty and changes only through the
  operations above, one request at a time.
\<close>

inductive reachable :: "env \<Rightarrow> backend \<Rightarrow> bool" for e :: env where
  r_init: "reachable e empty_backend"
| r_upload: "reachable e b \<Longrightarrow> doc_add f bytes now b = Inr b' \<Longrightarrow> reachable e b'"
| r_refresh: "reachable e b \<Longrightarrow> reachable e (refresh e b)"
| r_delete: "reachable e b \<Longrightarrow> doc_delete f b = Inr b' \<Longrightarrow> reachable e b'"
| r_reprocess: "reachable e b \<Longrightarrow> reachable e (reprocess e b)"
| r_new_session: "reachable e b \<Longrightarrow> reachable e (snd (session_create t now b))"
| r_delete_session: "reachable e b \<Longrightarrow> reachable e (session_delete i b)"
| r_query: "reachable e b \<Longrightarrow> reachable e (fst (snd (answer e q sid now b)))"

subsection \<open>Predicates and example states used in the statements below\<close>

text \<open>
  A status has the shape of the interface, \<open>{vectorstore_available: bool,
  document_count: int}\<close>, when its first field is a boolean and its second a number.
\<close>

fun is_bool :: "jsval \<Rightarrow> bool" where
  "is_bool (Bool b) = True"
| "is_bool v = False"

fun is_num :: "jsval \<Rightarrow> bool" where
  "is_num (Num n) = True"
| "is_num v = False"

definition wellformed_status :: "chat_status \<Rightarrow> bool" where
  "wellformed_status st = (is_bool (vectorstore_available st) \<and> is_num (document_count st))"

text \<open>
  Referential integrity of the stores: every chunk belongs to a stored document and
  carries that document's id in its own id, and every vector of the index belongs to a
  stored chunk.
\<close>

definition integrity :: "backend \<Rightarrow> bool" where
  "integrity b =
     ((\<forall>c \<in> set (chunks b). document_id c \<in> filename ` set (documents b)
                              \<and> fst (chunk_id c) = document_id c)
      \<and> (\<forall>x \<in> set (emb_index b). emb_chunk_id x \<in> chunk_id ` set (chunks b)))"

text \<open>
  An environment and some backend states for the examples: a decoder that accepts every
  file, an embedding made of the text's length, windows of 8 characters overlapping by 2.
\<close>

definition demo_env :: env where
  "demo_env =
     \<lparr> decode = Some, embed = (\<lambda>t. [of_nat (length t), 1]), generate = (\<lambda>p. p),
       embedding_model = ''m1'', chunk_size = 8, chunk_overlap = 2, retrieval_k = 2,
       history_window = 4 \<rparr>"

definition notes_uploaded :: backend where
  "notes_uploaded =
     empty_backend\<lparr>documents :=
       [\<lparr> filename = ''notes.txt'', content = ''The sky is blue.'', upload_time = 0,
          byte_size = 16, status = Pending \<rparr>]\<rparr>"

definition notes_indexed :: backend where
  "notes_indexed = refresh demo_env notes_uploaded"

definition grass_uploaded :: backend where
  "grass_uploaded =
     notes_indexed\<lparr>documents := documents notes_indexed @
       [\<lparr> filename = ''grass.txt'', content = ''Grass is green.'', upload_time = 1,
          byte_size = 15, status = Pending \<rparr>]\<rparr>"

definition two_indexed :: backend where
  "two_indexed = refresh demo_env grass_uploaded"

primrec after_new_sessions :: "nat \<Rightarrow> backend" where
  "after_new_sessions 0 = empty_backend"
| "after_new_sessions (Suc n) = snd (session_create ''New Chat'' n (after_new_sessions n))"

section \<open>Properties of the client\<close>

lemma trim_empty_iff: "trim s = [] \<longleftrightarrow> (\<forall>c \<in> set s. isWhiteSpace c)"
proof
  assume e: "trim s = []"
  have "dropWhile isWhiteSpace s = []"
  proof (rule ccontr)
    assume ne: "dropWhile isWhiteSpace s \<noteq> []"
    then have "\<not> isWhiteSpace (hd (dropWhile isWhiteSpace s))"
      by (rule hd_dropWhile)
    moreover from ne have "hd (dropWhile isWhiteSpace s) \<in> set (dropWhile isWhiteSpace s)"
      by simp
    moreover from e have "\<forall>x \<in> set (dropWhile isWhiteSpace s). isWhiteSpace x"
      by (simp add: trim_def)
    ultimately show False by blast
  qed
  then show "\<forall>c \<in> set s. isWhiteSpace c"
    by simp
next
  assume "\<forall>c \<in> set s. isWhiteSpace c"
  then have d: "dropWhile isWhiteSpace s = []"
    by simp
  show "trim s = []"
    unfolding trim_def d by simp
qed

text \<open>
  C1. When a current session id is set (the source tests it with \<open>currentSessionId &&\<close>,
  so null, undefined, the empty string and 0 count as not set) and the message list is
  empty, \<open>createNewChat\<close> issues no POST to /chat/new-session, leaves the message list and
  the session id as they are and only shows a notification. In every other state it
  issues the POST first and, when the response is ok and carries a JSON body other than
  null, it empties the message list and takes the body's \<open>session_id\<close> as the current
  session id.
\<close>

theorem createNewChat_guarded:
  "(truthy (currentSessionId s) \<and> messages s = [] \<longrightarrow>
      createNewChat s r =
        (s\<lparr>notification := Str (lit ''You already have an empty chat open'')\<rparr>,
         [Notify (Str (lit ''You already have an empty chat open''))])
      \<and> (\<forall>t. Fetch (PostChatNewSession t) \<notin> set (snd (createNewChat s r)))
      \<and> messages (fst (createNewChat s r)) = messages s
      \<and> currentSessionId (fst (createNewChat s r)) = currentSessionId s)
   \<and> (\<not> (truthy (currentSessionId s) \<and> messages s = []) \<longrightarrow>
      hd (snd (createNewChat s r)) = Fetch (PostChatNewSession (lit ''New Chat''))
      \<and> (\<forall>data. data \<noteq> Null \<and> data \<noteq> Undefined \<longrightarrow>
            messages (fst (createNewChat s (Response True (Inr data)))) = []
            \<and> Inr (currentSessionId (fst (createNewChat s (Response True (Inr data)))))
                = getProp data (lit ''session_id'')))"
proof (intro conjI impI allI)
  assume g: "truthy (currentSessionId s) \<and> messages s = []"
  then show "createNewChat s r =
        (s\<lparr>notification := Str (lit ''You already have an empty chat open'')\<rparr>,
         [Notify (Str (lit ''You already have an empty chat open''))])"
    by (simp add: createNewChat_def showNotification_def)
  from g show "\<And>t. Fetch (PostChatNewSession t) \<notin> set (snd (createNewChat s r))"
    by (simp add: createNewChat_def)
  from g show "messages (fst (createNewChat s r)) = messages s"
    by (simp add: createNewChat_def showNotification_def)
  from g show "currentSessionId (fst (createNewChat s r)) = currentSessionId s"
    by (simp add: createNewChat_def showNotification_def)
next
  assume n: "\<not> (truthy (currentSessionId s) \<and> messages s = [])"
  then show "hd (snd (createNewChat s r)) = Fetch (PostChatNewSession (lit ''New Chat''))"
    by (simp add: createNewChat_def Let_def split: outcome.split sum.split)
  fix data :: jsval
  assume d: "data \<noteq> Null \<and> data \<noteq> Undefined"
  then obtain sid where sid: "getProp data (lit ''session_id'') = Inr sid"
    by (cases data) (simp_all add: getProp_def)
  from n sid show "messages (fst (createNewChat s (Response True (Inr data)))) = []"
    by (auto simp: createNewChat_def Let_def showNotification_def)
  from n sid show "Inr (currentSessionId (fst (createNewChat s (Response True (Inr data)))))
      = getProp data (lit ''session_id'')"
    by (auto simp: createNewChat_def Let_def showNotification_def)
qed

theorem createNewChat_guarded_witness:
  "truthy (currentSessionId (initial_app\<lparr>currentSessionId := Str (lit ''s1'')\<rparr>))
   \<and> messages (initial_app\<lparr>currentSessionId := Str (lit ''s1'')\<rparr>) = []
   \<and> createNewChat (initial_app\<lparr>currentSessionId := Str (lit ''s1'')\<rparr>)
        (Response True (Inr (Obj [(lit ''session_id'', Str (lit ''s2''))])))
      = (initial_app\<lparr>currentSessionId := Str (lit ''s1''),
            notification := Str (lit ''You already have an empty chat open'')\<rparr>,
         [Notify (Str (lit ''You already have an empty chat open''))])
   \<and> \<not> truthy (currentSessionId initial_app)
   \<and> Obj [(lit ''session_id'', Str (lit ''s2''))] \<noteq> Null
   \<and> Obj [(lit ''session_id'', Str (lit ''s2''))] \<noteq> Undefined
   \<and> messages (fst (createNewChat initial_app
        (Response True (Inr (Obj [(lit ''session_id'', Str (lit ''s2''))]))))) = []
   \<and> currentSessionId (fst (createNewChat initial_app
        (Response True (Inr (Obj [(lit ''session_id'', Str (lit ''s2''))])))))
      = Str (lit ''s2'')"
proof -
  have g: "truthy (currentSessionId (initial_app\<lparr>currentSessionId := Str (lit ''s1'')\<rparr>))
      \<and> messages (initial_app\<lparr>currentSessionId := Str (lit ''s1'')\<rparr>) = []"
    by (simp add: initial_app_def lit_def)
  have n: "\<not> (truthy (currentSessionId initial_app) \<and> messages initial_app = [])"
    by (simp add: initial_app_def)
  have p: "getProp (Obj [(lit ''session_id'', Str (lit ''s2''))]) (lit ''session_id'')
      = Inr (Str (lit ''s2''))"
    by (simp add: getProp_def)
  from g createNewChat_guarded [of "initial_app\<lparr>currentSessionId := Str (lit ''s1'')\<rparr>"
      "Response True (Inr (Obj [(lit ''session_id'', Str (lit ''s2''))]))"]
  have a: "createNewChat (initial_app\<lparr>currentSessionId := Str (lit ''s1'')\<rparr>)
        (Response True (Inr (Obj [(lit ''session_id'', Str (lit ''s2''))])))
      = (initial_app\<lparr>currentSessionId := Str (lit ''s1''),
            notification := Str (lit ''You already have an empty chat open'')\<rparr>,
         [Notify (Str (lit ''You already have an empty chat open''))])"
    by blast
  from n createNewChat_guarded [of initial_app
      "Response True (Inr (Obj [(lit ''session_id'', Str (lit ''s2''))]))"]
  have "\<forall>data. data \<noteq> Null \<and> data \<noteq> Undefined \<longrightarrow>
      messages (fst (createNewChat initial_app (Response True (Inr data)))) = []
      \<and> Inr (currentSessionId (fst (createNewChat initial_app (Response True (Inr data)))))
          = getProp data (lit ''session_id'')"
    by blast
  from this [THEN spec, of "Obj [(lit ''session_id'', Str (lit ''s2''))]"]
  have b: "messages (fst (createNewChat initial_app
        (Response True (Inr (Obj [(lit ''session_id'', Str (lit ''s2''))]))))) = []
      \<and> currentSessionId (fst (createNewChat initial_app
        (Response True (Inr (Obj [(lit ''session_id'', Str (lit ''s2''))])))))
        = Str (lit ''s2'')"
    by (simp add: p)
  from g n a b show ?thesis
    by (simp add: initial_app_def)
qed

text \<open>
  C10. When the input is empty or consists of white space only, and whenever \<open>loading\<close> is
  true, \<open>sendMessage\<close> does nothing: it issues no request and shows nothing, and the whole
  state (so also the message list, the input text and the current session id) stays as
  it is, whatever the network would have answered.
\<close>

theorem sendMessage_blank_or_loading_noop:
  "(\<forall>c \<in> set (inputMessage s). isWhiteSpace c) \<or> loading s \<Longrightarrow> sendMessage s r = (s, [])"
  by (auto simp: sendMessage_def trim_empty_iff)

theorem sendMessage_blank_or_loading_noop_witness:
  "trim (inputMessage (initial_app\<lparr>inputMessage := [0x20, 0x9, 0x2028]\<rparr>)) = []
   \<and> sendMessage (initial_app\<lparr>inputMessage := [0x20, 0x9, 0x2028]\<rparr>) (Rejected [])
      = (initial_app\<lparr>inputMessage := [0x20, 0x9, 0x2028]\<rparr>, [])
   \<and> loading (initial_app\<lparr>inputMessage := lit ''hi'', loading := True\<rparr>)
   \<and> sendMessage (initial_app\<lparr>inputMessage := lit ''hi'', loading := True\<rparr>)
        (Response True (Inr (Obj [])))
      = (initial_app\<lparr>inputMessage := lit ''hi'', loading := True\<rparr>, [])"
proof -
  have t: "trim (inputMessage (initial_app\<lparr>inputMessage := [0x20, 0x9, 0x2028]\<rparr>)) = []"
    by (simp add: trim_def isWhiteSpace_def)
  then have a: "(\<forall>c \<in> set (inputMessage (initial_app\<lparr>inputMessage := [0x20, 0x9, 0x2028]\<rparr>)).
        isWhiteSpace c)
      \<or> loading (initial_app\<lparr>inputMessage := [0x20, 0x9, 0x2028]\<rparr>)"
    by (simp add: trim_empty_iff)
  have l: "loading (initial_app\<lparr>inputMessage := lit ''hi'', loading := True\<rparr>)"
    by simp
  then have b: "(\<forall>c \<in> set (inputMessage (initial_app\<lparr>inputMessage := lit ''hi'', loading := True\<rparr>)).
        isWhiteSpace c)
      \<or> loading (initial_app\<lparr>inputMessage := lit ''hi'', loading := True\<rparr>)"
    by (rule disjI2)
  from t l show ?thesis
    using sendMessage_blank_or_loading_noop [OF a, of "Rejected []"]
      sendMessage_blank_or_loading_noop [OF b, of "Response True (Inr (Obj []))"]
    by blast
qed

text \<open>
  C3. When \<open>sendMessage\<close> passes its guard and the POST to /chat/query is answered by an ok
  response whose JSON body is not null, the message list grows by exactly two entries,
  in this order: the user message (role "user", content the submitted text) and the
  assistant message (role "assistant", content the body's \<open>response\<close>, sources the
  body's \<open>source_documents\<close>); and the current session id becomes the body's
  \<open>session_id\<close>.
\<close>

theorem sendMessage_success_appends:
  assumes "trim (inputMessage s) \<noteq> []" and "\<not> loading s"
    and "data \<noteq> Null" and "data \<noteq> Undefined"
  shows "\<exists>response source_documents sid.
      getProp data (lit ''response'') = Inr response
    \<and> getProp data (lit ''source_documents'') = Inr source_documents
    \<and> getProp data (lit ''session_id'') = Inr sid
    \<and> messages (fst (sendMessage s (Response True (Inr data))))
        = messages s
          @ [Obj [(lit ''role'', Str (lit ''user'')), (lit ''content'', Str (inputMessage s))],
             Obj [(lit ''role'', Str (lit ''assistant'')), (lit ''content'', response),
                  (lit ''sources'', source_documents)]]
    \<and> currentSessionId (fst (sendMessage s (Response True (Inr data)))) = sid
    \<and> hd (snd (sendMessage s (Response True (Inr data))))
        = Fetch (PostChatQuery (inputMessage s) (currentSessionId s))"
proof -
  from assms(3,4) obtain a b c where p:
    "getProp data (lit ''response'') = Inr a"
    "getProp data (lit ''source_documents'') = Inr b"
    "getProp data (lit ''session_id'') = Inr c"
    by (cases data) (simp_all add: getProp_def)
  from assms(1,2) p show ?thesis
    by (simp add: sendMessage_def sendMessage_begin_def sendMessage_end_def Let_def
        userMessage_def assistantMessage_def)
qed

theorem sendMessage_success_appends_witness:
  "trim (inputMessage (initial_app\<lparr>inputMessage := lit ''hi''\<rparr>)) \<noteq> []
   \<and> \<not> loading (initial_app\<lparr>inputMessage := lit ''hi''\<rparr>)
   \<and> messages (fst (sendMessage (initial_app\<lparr>inputMessage := lit ''hi''\<rparr>)
        (Response True (Inr (Obj [(lit ''response'', Str (lit ''yo'')),
           (lit ''source_documents'', Arr []), (lit ''session_id'', Str (lit ''s1''))])))))
      = [Obj [(lit ''role'', Str (lit ''user'')), (lit ''content'', Str (lit ''hi''))],
         Obj [(lit ''role'', Str (lit ''assistant'')), (lit ''content'', Str (lit ''yo'')),
              (lit ''sources'', Arr [])]]
   \<and> currentSessionId (fst (sendMessage (initial_app\<lparr>inputMessage := lit ''hi''\<rparr>)
        (Response True (Inr (Obj [(lit ''response'', Str (lit ''yo'')),
           (lit ''source_documents'', Arr []), (lit ''session_id'', Str (lit ''s1''))])))))
      = Str (lit ''s1'')"
proof -
  have t: "trim (inputMessage (initial_app\<lparr>inputMessage := lit ''hi''\<rparr>)) \<noteq> []"
    by (simp add: trim_def isWhiteSpace_def lit_def)
  have l: "\<not> loading (initial_app\<lparr>inputMessage := lit ''hi''\<rparr>)"
    by (simp add: initial_app_def)
  have m: "messages (initial_app\<lparr>inputMessage := lit ''hi''\<rparr>) = []"
    "inputMessage (initial_app\<lparr>inputMessage := lit ''hi''\<rparr>) = lit ''hi''"
    by (simp_all add: initial_app_def)
  have p: "getProp (Obj [(lit ''response'', Str (lit ''yo'')),
           (lit ''source_documents'', Arr []), (lit ''session_id'', Str (lit ''s1''))])
         (lit ''response'') = Inr (Str (lit ''yo''))"
     "getProp (Obj [(lit ''response'', Str (lit ''yo'')),
           (lit ''source_documents'', Arr []), (lit ''session_id'', Str (lit ''s1''))])
         (lit ''source_documents'') = Inr (Arr [])"
     "getProp (Obj [(lit ''response'', Str (lit ''yo'')),
           (lit ''source_documents'', Arr []), (lit ''session_id'', Str (lit ''s1''))])
         (lit ''session_id'') = Inr (Str (lit ''s1''))"
    by (simp_all add: getProp_def lit_def)
  from sendMessage_success_appends [OF t l, of "Obj [(lit ''response'', Str (lit ''yo'')),
           (lit ''source_documents'', Arr []), (lit ''session_id'', Str (lit ''s1''))]"]
  show ?thesis
    using t l by (simp add: p m)
qed

lemma totalPages_div: "totalPages s = (length (uploadedFiles s) + 1) div 2"
proof -
  have "\<lceil>real (length (uploadedFiles s)) / 2\<rceil> = (int (length (uploadedFiles s)) + 1) div 2"
    by linarith
  then show ?thesis
    by (simp add: totalPages_def filesPerPage_def nat_div_distrib nat_add_distrib)
qed

text \<open>
  C9. For every list of uploaded files and every current page, the displayed slice has
  at most \<open>filesPerPage = 2\<close> entries; whenever \<open>totalPages > 0\<close>, the page the reset effect
  leaves is strictly below \<open>totalPages\<close>; and the slice displayed for that page is not
  empty while files exist.
\<close>

theorem pagination_in_range:
  "filesPerPage = 2
   \<and> length (currentFiles s) \<le> filesPerPage
   \<and> (totalPages s > 0 \<longrightarrow> currentPage (resetPagination s) < totalPages (resetPagination s)
        \<and> totalPages (resetPagination s) = totalPages s)
   \<and> (uploadedFiles s \<noteq> [] \<longrightarrow> currentFiles (resetPagination s) \<noteq> [])"
proof (intro conjI impI)
  show "filesPerPage = 2" by (simp add: filesPerPage_def)
  show "length (currentFiles s) \<le> filesPerPage"
    by (simp add: currentFiles_def slice_def)
  have tp: "totalPages (resetPagination s) = totalPages s"
    by (simp add: resetPagination_def totalPages_def)
  {
    assume "totalPages s > 0"
    then show "currentPage (resetPagination s) < totalPages (resetPagination s)"
      unfolding tp by (auto simp: resetPagination_def)
    show "totalPages (resetPagination s) = totalPages s" by (rule tp)
  }
  assume ne: "uploadedFiles s \<noteq> []"
  then have pos: "totalPages s > 0"
    by (cases "uploadedFiles s") (simp_all add: totalPages_div)
  then have "currentPage (resetPagination s) < totalPages s"
    by (auto simp: resetPagination_def)
  then have "currentPage (resetPagination s) * 2 < length (uploadedFiles s)"
    unfolding totalPages_div by linarith
  moreover have "uploadedFiles (resetPagination s) = uploadedFiles s"
    by (simp add: resetPagination_def)
  ultimately show "currentFiles (resetPagination s) \<noteq> []"
    by (simp add: currentFiles_def slice_def filesPerPage_def)
qed

theorem pagination_in_range_witness:
  "totalPages (initial_app\<lparr>uploadedFiles := [lit ''a'', lit ''b'', lit ''c''],
       currentPage := 5\<rparr>) > 0
   \<and> uploadedFiles (initial_app\<lparr>uploadedFiles := [lit ''a'', lit ''b'', lit ''c''],
       currentPage := 5\<rparr>) \<noteq> []
   \<and> currentPage (resetPagination (initial_app\<lparr>uploadedFiles :=
       [lit ''a'', lit ''b'', lit ''c''], currentPage := 5\<rparr>))
      < totalPages (resetPagination (initial_app\<lparr>uploadedFiles :=
       [lit ''a'', lit ''b'', lit ''c''], currentPage := 5\<rparr>))
   \<and> currentFiles (resetPagination (initial_app\<lparr>uploadedFiles :=
       [lit ''a'', lit ''b'', lit ''c''], currentPage := 5\<rparr>)) \<noteq> []"
proof -
  have a: "totalPages (initial_app\<lparr>uploadedFiles := [lit ''a'', lit ''b'', lit ''c''],
       currentPage := 5\<rparr>) > 0"
    by (simp add: totalPages_div)
  have b: "uploadedFiles (initial_app\<lparr>uploadedFiles := [lit ''a'', lit ''b'', lit ''c''],
       currentPage := 5\<rparr>) \<noteq> []"
    by simp
  from a b pagination_in_range [of "initial_app\<lparr>uploadedFiles :=
       [lit ''a'', lit ''b'', lit ''c''], currentPage := 5\<rparr>"]
  show ?thesis
    by blast
qed

section \<open>Properties of the backend model\<close>


lemma process_idem: "process e (fst (process e d)) = process e d"
  by (simp add: process_def split: option.split)

lemma split_ids: "c \<in> set (split e f txt) \<Longrightarrow> document_id c = f \<and> fst (chunk_id c) = f"
  by (auto simp: split_def)

lemma set_status_filenames [simp]: "filename ` set (set_status f st ds) = filename ` set ds"
  by (induction ds) (auto simp: set_status_def)

lemma upsert_map_ids:
  "map emb_chunk_id (upsert x idx) =
     (if emb_chunk_id x \<in> emb_chunk_id ` set idx then map emb_chunk_id idx
      else map emb_chunk_id idx @ [emb_chunk_id x])"
  by (induction idx) (auto simp: upsert_def)

lemma upsert_ids: "emb_chunk_id ` set (upsert x idx) = insert (emb_chunk_id x) (emb_chunk_id ` set idx)"
proof -
  have "emb_chunk_id ` set (upsert x idx) = set (map emb_chunk_id (upsert x idx))"
    by simp
  also have "\<dots> = insert (emb_chunk_id x) (emb_chunk_id ` set idx)"
    unfolding upsert_map_ids by auto
  finally show ?thesis .
qed

lemma foldl_upsert_ids:
  "emb_chunk_id ` set (foldl (\<lambda>idx c. upsert (embedding_of e c) idx) idx cs)
     = emb_chunk_id ` set idx \<union> chunk_id ` set cs"
  by (induction cs arbitrary: idx) (auto simp: upsert_ids embedding_of_def)

lemma integrity_empty: "integrity empty_backend"
  by (simp add: integrity_def empty_backend_def)

lemma integrity_doc_add: "integrity b \<Longrightarrow> doc_add f bytes now b = Inr b' \<Longrightarrow> integrity b'"
  by (auto simp: integrity_def doc_add_def split: if_splits)

lemma integrity_doc_delete: "integrity b \<Longrightarrow> doc_delete f b = Inr b' \<Longrightarrow> integrity b'"
  by (fastforce simp: integrity_def doc_delete_def index_remove_def split: if_splits)

lemma find_filename: "find (\<lambda>d. filename d = f) ds = Some d \<Longrightarrow> f \<in> filename ` set ds"
  by (auto simp: find_Some_iff image_iff) 

lemma integrity_ingest:
  assumes "integrity b"
  shows "integrity (ingest e f b)"
proof (cases "find (\<lambda>d. filename d = f) (documents b)")
  case None
  with assms show ?thesis by (simp add: ingest_def)
next
  case (Some d)
  then have fin: "f \<in> filename ` set (documents b)"
    by (rule find_filename)
  show ?thesis
  proof (cases "decode e (content d)")
    case None
    with Some assms show ?thesis
      by (simp add: ingest_def integrity_def)
  next
    case (Some tx)
    let ?old = "map chunk_id (filter (\<lambda>c. document_id c = f) (chunks b))"
    let ?kept = "filter (\<lambda>c. document_id c \<noteq> f) (chunks b)"
    let ?new = "split e f tx"
    let ?idx = "foldl (\<lambda>idx c. upsert (embedding_of e c) idx)
                  (index_remove ?old (emb_index b)) ?new"
    have b': "ingest e f b = b\<lparr>documents := set_status f Indexed (documents b),
        chunks := ?kept @ ?new, emb_index := ?idx\<rparr>"
      using \<open>find (\<lambda>d. filename d = f) (documents b) = Some d\<close> Some
      by (simp add: ingest_def)
    have c1: "\<forall>c \<in> set (?kept @ ?new). document_id c \<in> filename ` set (documents b)
        \<and> fst (chunk_id c) = document_id c"
      using assms fin by (auto simp: integrity_def dest: split_ids)
    have "emb_chunk_id ` set (index_remove ?old (emb_index b)) \<subseteq> chunk_id ` set ?kept"
    proof
      fix i assume "i \<in> emb_chunk_id ` set (index_remove ?old (emb_index b))"
      then obtain x where x: "x \<in> set (emb_index b)" "emb_chunk_id x \<notin> set ?old"
        "i = emb_chunk_id x"
        by (auto simp: index_remove_def)
      with assms obtain c where c: "c \<in> set (chunks b)" "chunk_id c = emb_chunk_id x"
        by (auto simp: integrity_def)
      with x have "document_id c \<noteq> f" by (metis (mono_tags, lifting) image_eqI list.set_map mem_Collect_eq set_filter)
      with c x show "i \<in> chunk_id ` set ?kept" by force
    qed
    moreover have "emb_chunk_id ` set ?idx
        = emb_chunk_id ` set (index_remove ?old (emb_index b)) \<union> chunk_id ` set ?new"
      by (rule foldl_upsert_ids)
    ultimately have "emb_chunk_id ` set ?idx \<subseteq> chunk_id ` set ?kept \<union> chunk_id ` set ?new"
      by blast
    then have "emb_chunk_id ` set ?idx \<subseteq> chunk_id ` set (?kept @ ?new)"
      by (simp add: image_Un)
    then have c2: "\<forall>x \<in> set ?idx. emb_chunk_id x \<in> chunk_id ` set (?kept @ ?new)"
      by blast
    from c1 c2 show ?thesis
      unfolding b' by (simp add: integrity_def)
  qed
qed

lemma integrity_foldl_ingest: "integrity b \<Longrightarrow> integrity (foldl (\<lambda>b' f. ingest e f b') b fs)"
  by (induction fs arbitrary: b) (simp_all add: integrity_ingest)

lemma integrity_refresh: "integrity b \<Longrightarrow> integrity (refresh e b)"
  by (simp add: refresh_def integrity_foldl_ingest)

lemma process_ids:
  "c \<in> set (snd (process e d)) \<Longrightarrow> document_id c = filename d \<and> fst (chunk_id c) = filename d"
  by (auto simp: process_def dest: split_ids split: option.splits)

lemma process_filename: "filename (fst (process e d)) = filename d"
  by (simp add: process_def split: option.split)

lemma integrity_reprocess: "integrity (reprocess e b)"
proof -
  let ?cs = "concat (map (\<lambda>d. snd (process e d)) (documents b))"
  have "\<forall>c \<in> set ?cs. document_id c \<in> filename ` set (documents b)
      \<and> fst (chunk_id c) = document_id c"
    by (auto dest!: process_ids)
  moreover have "filename ` set (map (\<lambda>d. fst (process e d)) (documents b))
      = filename ` set (documents b)"
    by (simp add: image_image process_filename)
  moreover have "\<forall>x \<in> set (rebuild e ?cs). emb_chunk_id x \<in> chunk_id ` set ?cs"
    unfolding rebuild_def by (simp add: embedding_of_def image_iff) blast
  ultimately show ?thesis
    by (simp add: integrity_def reprocess_def)
qed

lemma append_message_stores:
  "append_message i m now b = Inr b' \<Longrightarrow>
     documents b' = documents b \<and> chunks b' = chunks b \<and> emb_index b' = emb_index b
     \<and> length (sessions b') = length (sessions b)"
  by (auto simp: append_message_def split: if_splits)

lemma record_exchange_stores:
  assumes "record_exchange i um am now b = Inr b'"
  shows "documents b' = documents b \<and> chunks b' = chunks b \<and> emb_index b' = emb_index b
     \<and> length (sessions b') = length (sessions b)"
proof (cases "append_message i um now b")
  case (Inl err)
  with assms show ?thesis by (simp add: record_exchange_def)
next
  case (Inr b2)
  with assms have "append_message i am now b2 = Inr b'"
    by (simp add: record_exchange_def)
  from append_message_stores [OF this] append_message_stores [OF Inr]
  show ?thesis by simp
qed

lemma ensure_session_stores:
  "documents (snd (ensure_session sid now b)) = documents b
   \<and> chunks (snd (ensure_session sid now b)) = chunks b
   \<and> emb_index (snd (ensure_session sid now b)) = emb_index b"
  by (simp add: ensure_session_def session_create_def split: option.split)

lemma answer_state:
  "fst (snd (answer e q sid now b)) = snd (ensure_session sid now b)
   \<or> (\<exists>i um am. record_exchange i um am now (snd (ensure_session sid now b))
          = Inr (fst (snd (answer e q sid now b))))"
  by (simp add: answer_def Let_def split: sum.split) blast

lemma answer_stores:
  "documents (fst (snd (answer e q sid now b))) = documents b
   \<and> chunks (fst (snd (answer e q sid now b))) = chunks b
   \<and> emb_index (fst (snd (answer e q sid now b))) = emb_index b"
  using answer_state [of e q sid now b] ensure_session_stores [of sid now b]
  by (auto dest!: record_exchange_stores)

lemma reachable_integrity: "reachable e b \<Longrightarrow> integrity b"
proof (induction rule: reachable.induct)
  case r_init show ?case by (rule integrity_empty)
next
  case (r_new_session b t now) then show ?case
    by (simp add: integrity_def session_create_def)
next
  case (r_delete_session b i) then show ?case
    by (simp add: integrity_def session_delete_def)
next
  case (r_query b q sid now) then show ?case
    by (simp add: integrity_def answer_stores)
qed (auto intro: integrity_doc_add integrity_doc_delete integrity_refresh integrity_reprocess)


lemma search_subset:
  "hit \<in> set (search idx qv k) \<Longrightarrow> fst hit \<in> emb_chunk_id ` set idx"
proof -
  assume "hit \<in> set (search idx qv k)"
  then have "hit \<in> set (map (\<lambda>y. (emb_chunk_id y, similarity qv (emb_vector y)))
               (sort_key (\<lambda>y. - similarity qv (emb_vector y)) idx))"
    unfolding search_def by (rule in_set_takeD)
  then show ?thesis by auto
qed

lemma doc_delete_gone:
  assumes "integrity b" and "doc_delete f b = Inr b'"
  shows "f \<notin> filename ` set (documents b')"
    and "\<forall>c \<in> set (chunks b'). document_id c \<noteq> f"
    and "\<forall>x \<in> set (emb_index b'). fst (emb_chunk_id x) \<noteq> f"
proof -
  from assms(2) have b': "b' = b\<lparr>documents := filter (\<lambda>d. filename d \<noteq> f) (documents b),
                  chunks := filter (\<lambda>c. document_id c \<noteq> f) (chunks b),
                  emb_index :=
                    index_remove (map chunk_id (filter (\<lambda>c. document_id c = f) (chunks b)))
                      (emb_index b)\<rparr>"
    by (simp add: doc_delete_def split: if_splits)
  show "f \<notin> filename ` set (documents b')" by (auto simp: b')
  show c: "\<forall>c \<in> set (chunks b'). document_id c \<noteq> f" by (simp add: b')
  from assms have i: "integrity b'" by (rule integrity_doc_delete)
  show "\<forall>x \<in> set (emb_index b'). fst (emb_chunk_id x) \<noteq> f"
  proof
    fix x assume "x \<in> set (emb_index b')"
    with i obtain c where "c \<in> set (chunks b')" "chunk_id c = emb_chunk_id x"
      "fst (chunk_id c) = document_id c"
      by (auto simp: integrity_def)
    with c show "fst (emb_chunk_id x) \<noteq> f" by auto
  qed
qed

lemma search_docs:
  assumes "integrity b" and "hit \<in> set (search (emb_index b) qv k)"
  shows "fst (fst hit) \<in> filename ` set (documents b)"
proof -
  from assms(2) obtain x where "x \<in> set (emb_index b)" "fst hit = emb_chunk_id x"
    by (auto dest: search_subset)
  with assms(1) obtain c where "c \<in> set (chunks b)" "chunk_id c = fst hit"
    by (auto simp: integrity_def)
  with assms(1) show ?thesis by (auto simp: integrity_def)
qed



lemma lru_in: "ss \<noteq> [] \<Longrightarrow> lru ss \<in> set ss"
  by (simp add: lru_def arg_min_list_in)

lemma lru_least: "s \<in> set ss \<Longrightarrow> last_updated (lru ss) \<le> last_updated s"
proof -
  assume s: "s \<in> set ss"
  then have "ss \<noteq> []" by auto
  then have "last_updated (lru ss) = Min (last_updated ` set ss)"
    unfolding lru_def by (rule f_arg_min_list_f)
  with s show ?thesis by simp
qed

lemma length_evict: "ss \<noteq> [] \<Longrightarrow> length (evict ss) = length ss - 1"
  by (simp add: evict_def length_remove1 lru_in)

lemma session_create_bound:
  "length (sessions b) \<le> session_cap \<Longrightarrow> length (sessions (snd (session_create t now b))) \<le> session_cap"
  by (cases "sessions b = []") (auto simp: session_create_def length_evict session_cap_def)

lemma ensure_session_bound:
  "length (sessions b) \<le> session_cap \<Longrightarrow> length (sessions (snd (ensure_session sid now b))) \<le> session_cap"
  by (auto simp: ensure_session_def session_create_bound split: option.split)

lemma answer_sessions_length:
  "length (sessions (fst (snd (answer e q sid now b)))) = length (sessions (snd (ensure_session sid now b)))"
  using answer_state [of e q sid now b]
  by (auto dest!: record_exchange_stores)

lemma ingest_sessions [simp]: "sessions (ingest e f b) = sessions b"
  by (simp add: ingest_def split: option.split)

lemma foldl_ingest_sessions [simp]: "sessions (foldl (\<lambda>b' f. ingest e f b') b fs) = sessions b"
  by (induction fs arbitrary: b) simp_all

lemma reachable_sessions_bound: "reachable e b \<Longrightarrow> length (sessions b) \<le> session_cap"
proof (induction rule: reachable.induct)
  case r_init show ?case by (simp add: empty_backend_def)
next
  case (r_upload b f bytes now b') then show ?case
    by (auto simp: doc_add_def split: if_splits)
next
  case (r_refresh b) then show ?case by (simp add: refresh_def)
next
  case (r_delete b f b') then show ?case
    by (auto simp: doc_delete_def split: if_splits)
next
  case (r_reprocess b) then show ?case by (simp add: reprocess_def)
next
  case (r_new_session b t now)
  from r_new_session.IH show ?case by (rule session_create_bound)
next
  case (r_delete_session b i)
  have "length (sessions (session_delete i b)) \<le> length (sessions b)"
    by (simp add: session_delete_def)
  then show ?case using r_delete_session.IH by (rule le_trans)
next
  case (r_query b q sid now) then show ?case
    by (simp add: answer_sessions_length ensure_session_bound)
qed


lemma foldl_upsert_fresh:
  "distinct (map chunk_id cs) \<Longrightarrow> \<forall>c \<in> set cs. chunk_id c \<notin> emb_chunk_id ` set idx \<Longrightarrow>
     foldl (\<lambda>idx c. upsert (embedding_of e c) idx) idx cs = idx @ map (embedding_of e) cs"
proof (induction cs arbitrary: idx)
  case Nil
  show ?case by simp
next
  case (Cons c cs)
  from Cons.prems have u: "upsert (embedding_of e c) idx = idx @ [embedding_of e c]"
    by (simp add: upsert_def embedding_of_def)
  have "\<forall>c' \<in> set cs. chunk_id c' \<notin> emb_chunk_id ` set (idx @ [embedding_of e c])"
  proof
    fix c' assume c': "c' \<in> set cs"
    with Cons.prems have "chunk_id c' \<notin> emb_chunk_id ` set idx" by simp
    moreover from c' have "chunk_id c' \<in> chunk_id ` set cs" by (rule imageI)
    with Cons.prems have "chunk_id c' \<noteq> chunk_id c" by auto
    ultimately show "chunk_id c' \<notin> emb_chunk_id ` set (idx @ [embedding_of e c])"
      by (simp add: embedding_of_def)
  qed
  with Cons.prems have "foldl (\<lambda>idx c. upsert (embedding_of e c) idx) (idx @ [embedding_of e c]) cs
      = (idx @ [embedding_of e c]) @ map (embedding_of e) cs"
    by (intro Cons.IH) simp_all
  with u show ?case by simp
qed

lemma split_chunk_ids:
  "map chunk_id (split e f t)
     = map (Pair f) [0..<length (windows (chunk_size e) (chunk_overlap e) t 0)]"
proof -
  let ?ws = "windows (chunk_size e) (chunk_overlap e) t 0"
  have "map chunk_id (split e f t) = map (\<lambda>x. (f, fst x)) (enumerate 0 ?ws)"
    by (simp add: split_def case_prod_unfold comp_def)
  also have "\<dots> = map (Pair f) (map fst (enumerate 0 ?ws))"
    by (simp only: map_map comp_def)
  also have "map fst (enumerate 0 ?ws) = [0..<length ?ws]"
    by simp
  finally show ?thesis .
qed

lemma split_distinct: "distinct (map chunk_id (split e f t))"
  unfolding split_chunk_ids by (simp add: distinct_map inj_on_def)

lemma filter_replace_other:
  "fst (emb_chunk_id x) = f \<Longrightarrow>
     filter (\<lambda>y. fst (emb_chunk_id y) \<noteq> f)
        (map (\<lambda>y. if emb_chunk_id y = emb_chunk_id x then x else y) idx)
       = filter (\<lambda>y. fst (emb_chunk_id y) \<noteq> f) idx"
  by (induction idx) auto

lemma filter_upsert_other:
  "fst (emb_chunk_id x) = f \<Longrightarrow>
     filter (\<lambda>y. fst (emb_chunk_id y) \<noteq> f) (upsert x idx) = filter (\<lambda>y. fst (emb_chunk_id y) \<noteq> f) idx"
  by (simp add: upsert_def filter_replace_other)

lemma filter_foldl_upsert_other:
  "\<forall>c \<in> set cs. fst (chunk_id c) = f \<Longrightarrow>
     filter (\<lambda>y. fst (emb_chunk_id y) \<noteq> f) (foldl (\<lambda>idx c. upsert (embedding_of e c) idx) idx cs)
       = filter (\<lambda>y. fst (emb_chunk_id y) \<noteq> f) idx"
  by (induction cs arbitrary: idx) (simp_all add: filter_upsert_other embedding_of_def)

lemma ingest_others:
  assumes "integrity b"
  shows "filter (\<lambda>y. fst (emb_chunk_id y) \<noteq> f) (emb_index (ingest e f b))
       = filter (\<lambda>y. fst (emb_chunk_id y) \<noteq> f) (emb_index b)"
proof (cases "find (\<lambda>d. filename d = f) (documents b)")
  case None
  then show ?thesis by (simp add: ingest_def)
next
  case (Some d)
  show ?thesis
  proof (cases "decode e (content d)")
    case None
    with Some show ?thesis by (simp add: ingest_def)
  next
    case (Some tx)
    let ?old = "map chunk_id (filter (\<lambda>c. document_id c = f) (chunks b))"
    have "\<forall>i \<in> set ?old. fst i = f"
      using assms by (auto simp: integrity_def)
    then have "filter (\<lambda>y. fst (emb_chunk_id y) \<noteq> f) (index_remove ?old (emb_index b))
        = filter (\<lambda>y. fst (emb_chunk_id y) \<noteq> f) (emb_index b)"
      unfolding index_remove_def filter_filter by (intro filter_cong) auto
    moreover have "\<forall>c \<in> set (split e f tx). fst (chunk_id c) = f"
      by (auto dest: split_ids)
    ultimately show ?thesis
      using \<open>find (\<lambda>d. filename d = f) (documents b) = Some d\<close> Some
      by (simp add: ingest_def filter_foldl_upsert_other)
  qed
qed

lemma foldl_ingest_others:
  assumes "integrity b" and "set fs \<subseteq> S"
  shows "filter (\<lambda>y. fst (emb_chunk_id y) \<notin> S) (emb_index (foldl (\<lambda>b' f. ingest e f b') b fs))
       = filter (\<lambda>y. fst (emb_chunk_id y) \<notin> S) (emb_index b)"
  using assms
proof (induction fs arbitrary: b)
  case Nil
  show ?case by simp
next
  case (Cons f fs)
  from Cons.prems have fS: "f \<in> S" by simp
  have B: "filter (\<lambda>y. fst (emb_chunk_id y) \<notin> S) xs
      = filter (\<lambda>y. fst (emb_chunk_id y) \<notin> S) (filter (\<lambda>y. fst (emb_chunk_id y) \<noteq> f) xs)"
    for xs :: "embedding list"
    unfolding filter_filter using fS by (intro filter_cong) auto
  have "filter (\<lambda>y. fst (emb_chunk_id y) \<notin> S)
        (emb_index (foldl (\<lambda>b' f. ingest e f b') (ingest e f b) fs))
      = filter (\<lambda>y. fst (emb_chunk_id y) \<notin> S) (emb_index (ingest e f b))"
    using Cons.prems by (intro Cons.IH) (simp_all add: integrity_ingest)
  also have "\<dots> = filter (\<lambda>y. fst (emb_chunk_id y) \<notin> S)
      (filter (\<lambda>y. fst (emb_chunk_id y) \<noteq> f) (emb_index (ingest e f b)))"
    by (rule B)
  also have "\<dots> = filter (\<lambda>y. fst (emb_chunk_id y) \<notin> S)
      (filter (\<lambda>y. fst (emb_chunk_id y) \<noteq> f) (emb_index b))"
    using Cons.prems by (simp only: ingest_others)
  also have "\<dots> = filter (\<lambda>y. fst (emb_chunk_id y) \<notin> S) (emb_index b)"
    by (rule B [symmetric])
  finally show ?case by simp
qed

lemma refresh_others:
  "integrity b \<Longrightarrow>
     filter (\<lambda>y. fst (emb_chunk_id y) \<notin> set (pending b)) (emb_index (refresh e b))
       = filter (\<lambda>y. fst (emb_chunk_id y) \<notin> set (pending b)) (emb_index b)"
  unfolding refresh_def by (rule foldl_ingest_others) simp_all

lemma find_snoc:
  "f \<notin> filename ` set ds \<Longrightarrow> filename d = f \<Longrightarrow> find (\<lambda>d. filename d = f) (ds @ [d]) = Some d"
  by (induction ds) auto

lemma upload_refresh_appends:
  assumes i: "integrity b" and p: "pending b = []" and a: "doc_add f bytes now b = Inr b1"
  shows "emb_index (refresh e b1)
       = emb_index b @ (case decode e bytes of None \<Rightarrow> [] | Some t \<Rightarrow> rebuild e (split e f t))"
proof -
  let ?d = "\<lparr> filename = f, content = bytes, upload_time = now,
                     byte_size = length bytes, status = Pending \<rparr>"
  from a have nf: "f \<notin> filename ` set (documents b)"
    and b1: "b1 = b\<lparr>documents := documents b @ [?d]\<rparr>"
    by (auto simp: doc_add_def split: if_splits)
  from b1 have same: "chunks b1 = chunks b" "emb_index b1 = emb_index b"
    "documents b1 = documents b @ [?d]"
    by simp_all
  from p have "pending b1 = [f]"
    by (simp add: pending_def same)
  then have r: "refresh e b1 = ingest e f b1"
    by (simp add: refresh_def)
  from nf have fd: "find (\<lambda>d. filename d = f) (documents b1) = Some ?d"
    by (simp add: same find_snoc)
  from i nf have nc: "filter (\<lambda>c. document_id c = f) (chunks b1) = []"
    by (auto simp: integrity_def filter_empty_conv same)
  show ?thesis
  proof (cases "decode e bytes")
    case None
    with fd have "emb_index (ingest e f b1) = emb_index b1"
      by (simp add: ingest_def)
    with None show ?thesis by (simp add: r same)
  next
    case (Some tx)
    have "\<forall>c \<in> set (split e f tx). chunk_id c \<notin> emb_chunk_id ` set (emb_index b)"
    proof
      fix c assume "c \<in> set (split e f tx)"
      then have "fst (chunk_id c) = f" by (auto dest: split_ids)
      moreover have "\<forall>x \<in> set (emb_index b). fst (emb_chunk_id x) \<noteq> f"
        using i nf by (fastforce simp: integrity_def)
      ultimately show "chunk_id c \<notin> emb_chunk_id ` set (emb_index b)" by auto
    qed
    with split_distinct [of e f tx]
    have fo: "foldl (\<lambda>idx c. upsert (embedding_of e c) idx) (emb_index b) (split e f tx)
        = emb_index b @ map (embedding_of e) (split e f tx)"
      by (rule foldl_upsert_fresh)
    from fd Some nc have "emb_index (ingest e f b1)
        = foldl (\<lambda>idx c. upsert (embedding_of e c) idx) (emb_index b1) (split e f tx)"
      by (simp add: ingest_def index_remove_def)
    with fo Some show ?thesis
      by (simp add: r same rebuild_def)
  qed
qed

(*THEOREMS*)

end
